theory Spec2Isabelle
  imports Main
begin

section \<open>boost\_install.py: a shallow embedding\<close>

text \<open>
  The script \<^verbatim>\<open>src/scripts/boost_install.py\<close> derives a handful of strings from the
  version given on the command line, downloads and unpacks the archive and runs the two
  build tools. Its functions are embedded here one by one, under their own names.
  Python strings are modelled as \<^typ>\<open>string\<close>; the library functions the script calls
  (\<^verbatim>\<open>str.replace\<close>, \<^verbatim>\<open>str.split\<close>, \<^verbatim>\<open>os.path.join\<close>, \<^verbatim>\<open>os.path.normpath\<close>,
  \<^verbatim>\<open>subprocess.run\<close>) follow the pure-Python definitions of CPython's \<^verbatim>\<open>posixpath\<close>,
  \<^verbatim>\<open>ntpath\<close> and \<^verbatim>\<open>subprocess\<close> modules. Everything the script reads from the outside
  world (the operating system's name, the temp directory, the answers of the network,
  of the file system and of the child processes) is a field of the record \<open>env\<close>;
  everything it does to the outside world is an event of the trace a function returns.
\<close>

subsection \<open>Python strings\<close>

abbreviation BSL :: char where
  "BSL \<equiv> CHR 0x5C"

abbreviation NL :: char where
  "NL \<equiv> CHR 0x0A"

text \<open>\<^verbatim>\<open>s.replace(old, new)\<close> for one-character \<open>old\<close> and \<open>new\<close>.\<close>

definition str_replace :: "char \<Rightarrow> char \<Rightarrow> string \<Rightarrow> string" where
  "str_replace old new s = map (\<lambda>c. if c = old then new else c) s"

text \<open>\<^verbatim>\<open>s.split(sep)\<close> for a one-character separator: never the empty list.\<close>

fun str_split :: "char \<Rightarrow> string \<Rightarrow> string list" where
  "str_split sep [] = [[]]"
| "str_split sep (c # cs) =
     (if c = sep then [] # str_split sep cs
      else (case str_split sep cs of
              [] \<Rightarrow> [[c]]
            | w # ws \<Rightarrow> (c # w) # ws))"

text \<open>\<^verbatim>\<open>sep.join(xs)\<close>.\<close>

fun str_join :: "string \<Rightarrow> string list \<Rightarrow> string" where
  "str_join sep [] = []"
| "str_join sep [x] = x"
| "str_join sep (x # y # ys) = x @ sep @ str_join sep (y # ys)"

text \<open>\<^verbatim>\<open>s.startswith(p)\<close> and \<^verbatim>\<open>s.endswith(c)\<close> for a one-character \<open>c\<close>.\<close>

definition startswith :: "string \<Rightarrow> string \<Rightarrow> bool" where
  "startswith s p = (take (length p) s = p)"

definition endswith :: "string \<Rightarrow> char \<Rightarrow> bool" where
  "endswith s c = (s \<noteq> [] \<and> last s = c)"

text \<open>\<^verbatim>\<open>s.find(c, start)\<close>: \<open>None\<close> stands for Python's \<open>-1\<close>.\<close>

fun find_idx :: "char \<Rightarrow> string \<Rightarrow> nat option" where
  "find_idx c [] = None"
| "find_idx c (x # xs) = (if x = c then Some 0 else map_option Suc (find_idx c xs))"

definition str_find :: "char \<Rightarrow> nat \<Rightarrow> string \<Rightarrow> nat option" where
  "str_find c start s =
     (if length s < start then None
      else map_option (\<lambda>i. i + start) (find_idx c (drop start s)))"

text \<open>
  \<^verbatim>\<open>s.upper()\<close> and \<^verbatim>\<open>s.lower()\<close>, on the ASCII letters. \<^verbatim>\<open>ntpath\<close> uses them only to
  compare drive specifications.
\<close>

definition ascii_upper :: "char \<Rightarrow> char" where
  "ascii_upper c =
     (let n = (of_char c :: nat) in if 97 \<le> n \<and> n \<le> 122 then char_of (n - 32) else c)"

definition ascii_lower :: "char \<Rightarrow> char" where
  "ascii_lower c =
     (let n = (of_char c :: nat) in if 65 \<le> n \<and> n \<le> 90 then char_of (n + 32) else c)"

definition str_upper :: "string \<Rightarrow> string" where
  "str_upper s = map ascii_upper s"

definition str_lower :: "string \<Rightarrow> string" where
  "str_lower s = map ascii_lower s"

subsection \<open>posixpath\<close>

text \<open>\<^verbatim>\<open>posixpath.join(a, b)\<close>: an absolute \<open>b\<close> discards \<open>a\<close>.\<close>

definition posix_join :: "string \<Rightarrow> string \<Rightarrow> string" where
  "posix_join a b =
     (if startswith b ''/'' then b
      else if a = [] \<or> endswith a (CHR ''/'') then a @ b
      else a @ ''/'' @ b)"

text \<open>The body of the \<^verbatim>\<open>for comp in comps\<close> loop of \<^verbatim>\<open>posixpath.normpath\<close>.\<close>

definition posix_norm_step :: "nat \<Rightarrow> string list \<Rightarrow> string \<Rightarrow> string list" where
  "posix_norm_step initial_slashes new_comps cmp =
     (if cmp = [] \<or> cmp = ''.'' then new_comps
      else if cmp \<noteq> ''..'' \<or> (initial_slashes = 0 \<and> new_comps = [])
              \<or> (new_comps \<noteq> [] \<and> last new_comps = ''..'')
           then new_comps @ [cmp]
      else if new_comps \<noteq> [] then butlast new_comps
      else new_comps)"

definition posix_normpath :: "string \<Rightarrow> string" where
  "posix_normpath path =
     (if path = [] then ''.''
      else
        let initial_slashes =
              (if startswith path ''/'' then
                 (if startswith path ''//'' \<and> \<not> startswith path ''///'' then 2 else 1)
               else (0::nat));
            comps = str_split (CHR ''/'') path;
            new_comps = foldl (posix_norm_step initial_slashes) [] comps;
            p = str_join ''/'' new_comps;
            p' = (if initial_slashes \<noteq> 0 then replicate initial_slashes (CHR ''/'') @ p else p)
        in if p' = [] then ''.'' else p')"

subsection \<open>ntpath\<close>

definition nt_splitdrive :: "string \<Rightarrow> string \<times> string" where
  "nt_splitdrive p =
     (if 2 \<le> length p then
        let normp = str_replace (CHR ''/'') BSL p in
        if take 2 normp = [BSL, BSL] then
          let start = (if str_upper (take 8 normp) = [BSL, BSL] @ ''?'' @ [BSL] @ ''UNC'' @ [BSL]
                       then 8 else 2 :: nat)
          in (case str_find BSL start normp of
                None \<Rightarrow> (p, [])
              | Some index \<Rightarrow>
                 (case str_find BSL (index + 1) normp of
                    None \<Rightarrow> (p, [])
                  | Some index2 \<Rightarrow> (take index2 p, drop index2 p)))
        else if take 1 (drop 1 normp) = '':'' then (take 2 p, drop 2 p)
        else ([], p)
      else ([], p))"

definition is_nt_sep :: "char \<Rightarrow> bool" where
  "is_nt_sep c = (c = BSL \<or> c = CHR ''/'')"

text \<open>\<^verbatim>\<open>ntpath.join(path, p)\<close> with one further component.\<close>

definition nt_join :: "string \<Rightarrow> string \<Rightarrow> string" where
  "nt_join path p =
     (let (result_drive, result_path) = nt_splitdrive path;
          (p_drive, p_path) = nt_splitdrive p;
          (result_drive', result_path') =
            (if p_path \<noteq> [] \<and> is_nt_sep (hd p_path) then
               ((if p_drive \<noteq> [] \<or> result_drive = [] then p_drive else result_drive), p_path)
             else if p_drive \<noteq> [] \<and> p_drive \<noteq> result_drive
                     \<and> str_lower p_drive \<noteq> str_lower result_drive then
               (p_drive, p_path)
             else
               (let rd = (if p_drive \<noteq> [] \<and> p_drive \<noteq> result_drive then p_drive
                          else result_drive);
                    rp = (if result_path \<noteq> [] \<and> \<not> is_nt_sep (last result_path)
                          then result_path @ [BSL] else result_path)
                in (rd, rp @ p_path)))
      in if result_path' \<noteq> [] \<and> \<not> is_nt_sep (hd result_path')
            \<and> result_drive' \<noteq> [] \<and> last result_drive' \<noteq> CHR '':''
         then result_drive' @ [BSL] @ result_path'
         else result_drive' @ result_path')"

text \<open>
  The \<^verbatim>\<open>while i < len(comps)\<close> loop of \<^verbatim>\<open>ntpath.normpath\<close>; \<^verbatim>\<open>del comps[i]\<close> and
  \<^verbatim>\<open>del comps[i-1:i+1]\<close> are written with \<open>take\<close> and \<open>drop\<close>.
\<close>

function nt_norm_loop :: "string \<Rightarrow> nat \<Rightarrow> string list \<Rightarrow> string list" where
  "nt_norm_loop prefix i comps =
     (if i < length comps then
        (if comps ! i = [] \<or> comps ! i = ''.'' then
           nt_norm_loop prefix i (take i comps @ drop (Suc i) comps)
         else if comps ! i = ''..'' then
           (if 0 < i \<and> comps ! (i - 1) \<noteq> ''..'' then
              nt_norm_loop prefix (i - 1) (take (i - 1) comps @ drop (Suc i) comps)
            else if i = 0 \<and> endswith prefix BSL then
              nt_norm_loop prefix i (take i comps @ drop (Suc i) comps)
            else nt_norm_loop prefix (Suc i) comps)
         else nt_norm_loop prefix (Suc i) comps)
      else comps)"
  by pat_completeness auto
termination
  by (relation "measure (\<lambda>(prefix, i, comps). 2 * length comps - i)") auto

declare nt_norm_loop.simps [simp del]

definition nt_normpath :: "string \<Rightarrow> string" where
  "nt_normpath path0 =
     (let path1 = str_replace (CHR ''/'') BSL path0;
          (prefix0, path2) = nt_splitdrive path1;
          (prefix, path) =
            (if startswith path2 [BSL] then (prefix0 @ [BSL], dropWhile (\<lambda>c. c = BSL) path2)
             else (prefix0, path2));
          comps = nt_norm_loop prefix 0 (str_split BSL path);
          comps' = (if prefix = [] \<and> comps = [] then [''.''] else comps)
      in prefix @ str_join [BSL] comps')"

subsection \<open>The operating system's name and \<^verbatim>\<open>os.path\<close>\<close>

text \<open>\<^verbatim>\<open>os.name == 'nt'\<close> is all the script asks about the platform.\<close>

datatype os_kind = Nt | Posix

fun os_path_join :: "os_kind \<Rightarrow> string \<Rightarrow> string \<Rightarrow> string" where
  "os_path_join Nt a b = nt_join a b"
| "os_path_join Posix a b = posix_join a b"

fun os_path_normpath :: "os_kind \<Rightarrow> string \<Rightarrow> string" where
  "os_path_normpath Nt p = nt_normpath p"
| "os_path_normpath Posix p = posix_normpath p"

subsection \<open>The outside world\<close>

text \<open>
  An exception raised by the outside world carries its message; \<^verbatim>\<open>subprocess.run\<close>
  with \<^verbatim>\<open>check=True\<close> raises \<^verbatim>\<open>CalledProcessError\<close> with the command and its exit
  status.
\<close>

datatype error =
    URLError string
  | OSError string
  | FileNotFoundError string
  | TarError string
  | CalledProcessError int "string list"

text \<open>What a child process did: it could not be started, or it ran and exited.\<close>

datatype proc_outcome = Launch_failed string | Exited int

text \<open>
  \<open>urlopen\<close> answers \<^verbatim>\<open>urllib.request.urlopen(url)\<close>: an exception, or a response
  whose \<^verbatim>\<open>read()\<close> raises or gives the body. \<open>open_wb\<close> and \<open>file_write\<close> answer
  \<^verbatim>\<open>open(dest, 'wb')\<close> and \<^verbatim>\<open>out_file.write(data)\<close>, \<open>tarfile_open\<close> and
  \<open>tar_extractall\<close> the two calls on the archive, \<open>child\<close> the process that
  \<^verbatim>\<open>subprocess.run(cmd, shell=..., cwd=...)\<close> starts. \<open>gettempdir\<close> answers
  \<^verbatim>\<open>tempfile.gettempdir()\<close>: the directory, which Python takes from the environment
  variables \<^verbatim>\<open>TMPDIR\<close>, \<^verbatim>\<open>TEMP\<close>, \<^verbatim>\<open>TMP\<close> before the platform's defaults, or the
  \<^verbatim>\<open>FileNotFoundError\<close> it raises when none of the candidates is usable.
\<close>

record env =
  os_name :: os_kind
  gettempdir :: "error + string"
  urlopen :: "string \<Rightarrow> error + (error + string)"
  open_wb :: "string \<Rightarrow> error option"
  file_write :: "string \<Rightarrow> string \<Rightarrow> error option"
  tarfile_open :: "string \<Rightarrow> error option"
  tar_extractall :: "string \<Rightarrow> string \<Rightarrow> error option"
  child :: "string list \<Rightarrow> bool \<Rightarrow> string \<Rightarrow> proc_outcome"

text \<open>
  The events of a run, in the order the script causes them. \<open>Print s\<close> is the text
  handed to standard output (with the line end, if any); \<open>Print_exc e\<close> is
  \<^verbatim>\<open>print(Fore.RED + '{}'.format(e))\<close>; \<open>Subprocess_run cmd shell check cwd\<close> is the
  call of \<^verbatim>\<open>subprocess.run\<close> with these arguments.
\<close>

datatype event =
    Print string
  | Print_exc error
  | Urlopen string
  | Open_wb string
  | Response_read string
  | File_write string string
  | Tarfile_open string
  | Tar_extractall string string
  | Subprocess_run "string list" bool bool string

text \<open>An effectful function returns its trace and either the exception it raised or its value.\<close>

type_synonym 'a io = "event list \<times> (error + 'a)"

definition return_io :: "'a \<Rightarrow> 'a io" where
  "return_io x = ([], Inr x)"

definition raise_io :: "error \<Rightarrow> 'a io" where
  "raise_io e = ([], Inl e)"

definition emit :: "event \<Rightarrow> unit io" where
  "emit ev = ([ev], Inr ())"

text \<open>Sequencing: an exception ends the run of everything that follows.\<close>

definition bind_io :: "'a io \<Rightarrow> ('a \<Rightarrow> 'b io) \<Rightarrow> 'b io" where
  "bind_io m f =
     (case m of
        (t, Inl e) \<Rightarrow> (t, Inl e)
      | (t, Inr x) \<Rightarrow> (case f x of (t', r) \<Rightarrow> (t @ t', r)))"

definition then_io :: "unit io \<Rightarrow> 'b io \<Rightarrow> 'b io" where
  "then_io m k = bind_io m (\<lambda>_. k)"

text \<open>A call that either raises or returns nothing.\<close>

definition attempt :: "error option \<Rightarrow> unit io" where
  "attempt r = (case r of None \<Rightarrow> return_io () | Some e \<Rightarrow> raise_io e)"

definition Fore_GREEN :: string where
  "Fore_GREEN = CHR 0x1B # ''[32m''"

text \<open>\<^verbatim>\<open>print(s, end='')\<close> and \<^verbatim>\<open>print(s)\<close>.\<close>

definition print_noend :: "string \<Rightarrow> unit io" where
  "print_noend s = emit (Print s)"

definition print_line :: "string \<Rightarrow> unit io" where
  "print_line s = emit (Print (s @ [NL]))"

subsection \<open>\<^verbatim>\<open>subprocess.run\<close>\<close>

text \<open>
  \<^verbatim>\<open>subprocess.run(cmd, shell=shell, check=check, cwd=cwd)\<close>: a process that cannot be
  started raises; with \<open>check\<close>, so does a nonzero exit status.
\<close>

definition subprocess_run :: "env \<Rightarrow> string list \<Rightarrow> bool \<Rightarrow> bool \<Rightarrow> string \<Rightarrow> int io" where
  "subprocess_run e cmd shell check cwd =
     then_io (emit (Subprocess_run cmd shell check cwd))
       (case child e cmd shell cwd of
          Launch_failed m \<Rightarrow> raise_io (OSError m)
        | Exited rc \<Rightarrow>
            if check \<and> rc \<noteq> 0 then raise_io (CalledProcessError rc cmd)
            else return_io rc)"

text \<open>
  On POSIX, \<^verbatim>\<open>Popen._execute_child\<close> turns the list \<open>cmd\<close> into the argument vector
  of the child: \<^verbatim>\<open>args = [unix_shell, "-c"] + args\<close> when \<open>shell\<close> is set, \<open>cmd\<close> itself
  otherwise.
\<close>

definition posix_child_argv :: "bool \<Rightarrow> string list \<Rightarrow> string list" where
  "posix_child_argv shell cmd = (if shell then [''/bin/sh'', ''-c''] @ cmd else cmd)"

text \<open>
  \<^verbatim>\<open>sh -c command_string [command_name [argument...]]\<close>: the shell executes the
  command string, the operand after \<^verbatim>\<open>-c\<close>; the operands after it become \<^verbatim>\<open>$0\<close>,
  \<^verbatim>\<open>$1\<close>, ... of the shell and are no part of the command.
\<close>

definition sh_command_string :: "string list \<Rightarrow> string option" where
  "sh_command_string argv =
     (case argv of
        sh # flag # command_string # operands \<Rightarrow>
          (if flag = ''-c'' then Some command_string else None)
      | _ \<Rightarrow> None)"

subsection \<open>The script\<close>

text \<open>The parsed command line: \<^verbatim>\<open>--version\<close> is required, \<^verbatim>\<open>--path\<close> may be absent.\<close>

record args =
  version :: string
  path :: "string option"

text \<open>The name of the archive, the local \<open>archive_name\<close> of \<^verbatim>\<open>metainfo\<close>.\<close>

definition archive_name :: "string \<Rightarrow> string" where
  "archive_name version_with_dots =
     ''boost_'' @ str_replace (CHR ''.'') (CHR ''_'') version_with_dots @ ''.tar.gz''"

text \<open>
  \<^verbatim>\<open>metainfo\<close> asks for the temp directory before it prints anything: when
  \<^verbatim>\<open>tempfile.gettempdir()\<close> raises, so does \<^verbatim>\<open>metainfo\<close>, with an empty trace.
\<close>

definition metainfo :: "env \<Rightarrow> args \<Rightarrow> (string \<times> string \<times> string \<times> string) io" where
  "metainfo e a =
     (let version_with_dots = version a @ ''.0''
      in case gettempdir e of
           Inl err \<Rightarrow> raise_io err
         | Inr temp_dir \<Rightarrow>
            (let file_name = os_path_join (os_name e) temp_dir (archive_name version_with_dots);
                 url = ''https://boostorg.jfrog.io/artifactory/main/release/'' @
                         version_with_dots @ ''/source/'' @ archive_name version_with_dots
             in then_io (print_noend (Fore_GREEN @ ''Temp directory: ''))
               (then_io (print_line temp_dir)
                 (return_io (version_with_dots, temp_dir, url, file_name)))))"

definition download :: "env \<Rightarrow> string \<Rightarrow> string \<Rightarrow> unit io" where
  "download e url dest =
     then_io (print_noend (Fore_GREEN @ ''Downloading: ''))
    (then_io (print_line (url @ '' into '' @ dest))
    (then_io (emit (Urlopen url))
       (case urlopen e url of
          Inl err \<Rightarrow> raise_io err
        | Inr response \<Rightarrow>
            then_io (emit (Open_wb dest))
           (then_io (attempt (open_wb e dest))
           (then_io (emit (Response_read url))
              (case response of
                 Inl err \<Rightarrow> raise_io err
               | Inr data \<Rightarrow>
                   then_io (emit (File_write dest data))
                     (attempt (file_write e dest data))))))))"

text \<open>\<^verbatim>\<open>file_name.split('.')[0]\<close>: the split has a first element whatever the string.\<close>

definition split_first :: "string \<Rightarrow> string" where
  "split_first file_name = (case str_split (CHR ''.'') file_name of [] \<Rightarrow> [] | x # _ \<Rightarrow> x)"

text \<open>The function \<^verbatim>\<open>extract\<close> of the script.\<close>

definition extract_tar :: "env \<Rightarrow> string \<Rightarrow> string \<Rightarrow> string io" where
  "extract_tar e temp_dir file_name =
     (let dir_name = split_first file_name
      in then_io (print_noend (Fore_GREEN @ ''Extracting: ''))
        (then_io (print_line dir_name)
        (then_io (emit (Tarfile_open file_name))
        (then_io (attempt (tarfile_open e file_name))
        (then_io (emit (Tar_extractall file_name temp_dir))
        (then_io (attempt (tar_extractall e file_name temp_dir))
          (return_io (os_path_join (os_name e) temp_dir dir_name))))))))"

definition default_path :: "os_kind \<Rightarrow> string \<Rightarrow> string" where
  "default_path os ver =
     (case os of
        Nt \<Rightarrow> ''C:'' @ [BSL] @ ''boost'' @ [BSL] @ ''boost_'' @ ver
      | Posix \<Rightarrow> ''/usr/local/boost_'' @ ver)"

text \<open>
  \<^verbatim>\<open>not path\<close> holds of \<^verbatim>\<open>None\<close> and of the empty string: both take the default.
\<close>

definition get_prefix :: "env \<Rightarrow> string option \<Rightarrow> string \<Rightarrow> string io" where
  "get_prefix e p ver =
     (let path' = (case p of
                     None \<Rightarrow> default_path (os_name e) ver
                   | Some s \<Rightarrow> if s = [] then default_path (os_name e) ver else s);
          prefix_path = os_path_normpath (os_name e) path'
      in then_io (print_noend (Fore_GREEN @ ''Install path: ''))
        (then_io (print_line prefix_path)
          (return_io (''--prefix='' @ prefix_path))))"

definition bootstrap_cmd :: "os_kind \<Rightarrow> string \<Rightarrow> string list" where
  "bootstrap_cmd os prefix_arg =
     (case os of Nt \<Rightarrow> [''bootstrap.bat''] | Posix \<Rightarrow> [''./bootstrap.sh'']) @ [prefix_arg]"

definition bootstrap :: "env \<Rightarrow> string \<Rightarrow> string \<Rightarrow> unit io" where
  "bootstrap e prefix_arg extract_directory =
     (let cmd = bootstrap_cmd (os_name e) prefix_arg
      in then_io (print_noend (Fore_GREEN @ ''Bootstrap command: ''))
        (then_io (print_line (str_join '' '' cmd))
        (bind_io (subprocess_run e cmd True False extract_directory) (\<lambda>_. return_io ()))))"

definition b2_cmd :: "os_kind \<Rightarrow> string \<Rightarrow> string list" where
  "b2_cmd os prefix_arg =
     (case os of
        Nt \<Rightarrow> [''b2.exe'', ''install'', prefix_arg, ''-j 8'']
      | Posix \<Rightarrow> [''sudo'', ''./b2'', ''install'', prefix_arg, ''-j 8''])"

text \<open>
  The keyword arguments of the build stage: \<^verbatim>\<open>shell=True\<close> on Windows, \<^verbatim>\<open>check=True\<close>
  elsewhere; what is not set keeps the default \<^verbatim>\<open>False\<close> of \<^verbatim>\<open>subprocess.run\<close>.
\<close>

definition b2 :: "env \<Rightarrow> string \<Rightarrow> string \<Rightarrow> unit io" where
  "b2 e prefix_arg extract_directory =
     (let cmd = b2_cmd (os_name e) prefix_arg;
          shell = (os_name e = Nt);
          check = (os_name e \<noteq> Nt)
      in then_io (print_noend (Fore_GREEN @ ''Build command: ''))
        (then_io (print_line (str_join '' '' cmd))
        (bind_io (subprocess_run e cmd shell check extract_directory) (\<lambda>_. return_io ()))))"

definition process :: "env \<Rightarrow> args \<Rightarrow> unit io" where
  "process e a =
     bind_io (metainfo e a) (\<lambda>(ver, temp_dir, url, file_name).
     then_io (download e url file_name)
    (bind_io (extract_tar e temp_dir file_name) (\<lambda>extract_directory.
     bind_io (get_prefix e (path a) ver) (\<lambda>prefix_arg.
     then_io (bootstrap e prefix_arg extract_directory)
             (b2 e prefix_arg extract_directory)))))"

text \<open>
  The \<^verbatim>\<open>__main__\<close> block: whatever \<^verbatim>\<open>Exception\<close> the pipeline raises is caught and
  printed, and the script ends.
\<close>

definition script_main :: "env \<Rightarrow> args \<Rightarrow> event list" where
  "script_main e a =
     (case process e a of
        (t, Inl err) \<Rightarrow> t @ [Print ''Error: '', Print_exc err]
      | (t, Inr _) \<Rightarrow> t)"

subsection \<open>Notions the properties are stated with\<close>

text \<open>
  A world in which every call succeeds: there is a temp directory, the download
  answers, the files can be written, the archive unpacks and both tools exit with
  status 0.
\<close>

definition quiet_env :: "os_kind \<Rightarrow> string \<Rightarrow> env" where
  "quiet_env os t =
     \<lparr> os_name = os, gettempdir = Inr t,
       urlopen = (\<lambda>u. Inr (Inr ''tarball'')),
       open_wb = (\<lambda>f. None),
       file_write = (\<lambda>f d. None),
       tarfile_open = (\<lambda>f. None),
       tar_extractall = (\<lambda>f d. None),
       child = (\<lambda>cmd shell cwd. Exited 0) \<rparr>"

text \<open>\<open>embeds s sub\<close>: the string \<open>sub\<close> occurs in \<open>s\<close>.\<close>

fun embeds :: "string \<Rightarrow> string \<Rightarrow> bool" where
  "embeds [] sub = (sub = [])"
| "embeds (c # cs) sub = (startswith (c # cs) sub \<or> embeds cs sub)"

text \<open>The calls of \<^verbatim>\<open>subprocess.run\<close> in a trace, in order.\<close>

fun is_run :: "event \<Rightarrow> bool" where
  "is_run (Subprocess_run cmd shell check cwd) = True"
| "is_run ev = False"

definition runs :: "event list \<Rightarrow> event list" where
  "runs t = filter is_run t"

text \<open>
  The events of the stages after the fetch: opening and unpacking the archive, and
  starting a tool.
\<close>

fun after_fetch :: "event \<Rightarrow> bool" where
  "after_fetch (Tarfile_open f) = True"
| "after_fetch (Tar_extractall f d) = True"
| "after_fetch (Subprocess_run cmd shell check cwd) = True"
| "after_fetch ev = False"

section \<open>Properties\<close>

subsection \<open>Strings and paths\<close>

lemma str_replace_no_old: "old \<noteq> new \<Longrightarrow> old \<notin> set (str_replace old new s)"
  by (auto simp: str_replace_def)

lemma embeds_append: "embeds (pre @ sub @ suf) sub"
proof (induction pre)
  case Nil
  have s: "startswith (sub @ suf) sub"
    by (simp add: startswith_def)
  show ?case
  proof (cases "sub @ suf")
    case Nil
    then show ?thesis by simp
  next
    case (Cons a l)
    with s have "startswith (a # l) sub" by simp
    with Cons show ?thesis by simp
  qed
next
  case (Cons c pre)
  then show ?case by simp
qed

lemma str_split_no_sep: "sep \<notin> set s \<Longrightarrow> str_split sep s = [s]"
  by (induction s) auto

lemma str_split_not_Nil: "str_split sep s \<noteq> []"
  by (induction s) (auto split: list.splits)

lemmas path_defs = posix_join_def posix_normpath_def posix_norm_step_def startswith_def
  endswith_def split_first_def

lemma posix_normpath_default:
  assumes "CHR ''/'' \<notin> set ver"
  shows "posix_normpath (''/usr/local/boost_'' @ ver) = ''/usr/local/boost_'' @ ver"
  using assms
  by (simp add: posix_normpath_def startswith_def Let_def str_split_no_sep posix_norm_step_def)

lemma nt_normpath_default:
  assumes "CHR ''/'' \<notin> set ver" and "BSL \<notin> set ver"
  shows "nt_normpath (''C:'' @ [BSL] @ ''boost'' @ [BSL] @ ''boost_'' @ ver)
           = ''C:'' @ [BSL] @ ''boost'' @ [BSL] @ ''boost_'' @ ver"
proof -
  have r: "str_replace (CHR ''/'') BSL ver = ver"
    using assms(1) by (induction ver) (auto simp: str_replace_def)
  have l: "nt_norm_loop (''C:'' @ [BSL]) 0 [''boost'', ''boost_'' @ ver] = [''boost'', ''boost_'' @ ver]"
    by (simp add: nt_norm_loop.simps [of _ 0] nt_norm_loop.simps [of _ "Suc 0"] nt_norm_loop.simps [of _ "Suc (Suc 0)"])
  show ?thesis
    using assms(2) r l
    by (simp add: nt_normpath_def nt_splitdrive_def str_replace_def startswith_def Let_def
        str_split_no_sep)
qed

lemma posix_normpath_default_not_dot:
  "posix_normpath (''/usr/local/boost_'' @ ver) \<noteq> ''.''"
  by (simp add: posix_normpath_def startswith_def Let_def)

lemma nt_normpath_default_not_dot:
  "nt_normpath (''C:'' @ [BSL] @ ''boost'' @ [BSL] @ ''boost_'' @ ver) \<noteq> ''.''"
  by (simp add: nt_normpath_def nt_splitdrive_def str_replace_def startswith_def Let_def)

subsection \<open>The stages, one by one\<close>

lemmas io_defs = return_io_def raise_io_def emit_def bind_io_def then_io_def attempt_def
  print_noend_def print_line_def

lemma metainfo_eq:
  "metainfo e a =
     (case gettempdir e of
        Inl err \<Rightarrow> ([], Inl err)
      | Inr temp_dir \<Rightarrow>
          ([Print (Fore_GREEN @ ''Temp directory: ''), Print (temp_dir @ [NL])],
           Inr (version a @ ''.0'', temp_dir,
                ''https://boostorg.jfrog.io/artifactory/main/release/'' @ (version a @ ''.0'') @
                  ''/source/'' @ archive_name (version a @ ''.0''),
                os_path_join (os_name e) temp_dir (archive_name (version a @ ''.0'')))))"
  by (simp add: metainfo_def io_defs Let_def split: sum.splits)

lemma get_prefix_eq:
  "get_prefix e p ver =
     ([Print (Fore_GREEN @ ''Install path: ''),
       Print (os_path_normpath (os_name e)
                (case p of None \<Rightarrow> default_path (os_name e) ver
                 | Some s \<Rightarrow> if s = [] then default_path (os_name e) ver else s) @ [NL])],
      Inr (''--prefix='' @ os_path_normpath (os_name e)
                (case p of None \<Rightarrow> default_path (os_name e) ver
                 | Some s \<Rightarrow> if s = [] then default_path (os_name e) ver else s)))"
  by (simp add: get_prefix_def io_defs Let_def)

lemma runs_append: "runs (t @ t') = runs t @ runs t'"
  by (simp add: runs_def)

lemma runs_metainfo: "runs (fst (metainfo e a)) = []"
  by (simp add: metainfo_eq runs_def split: sum.splits)

lemma runs_download: "runs (fst (download e url dest)) = []"
  by (simp add: download_def io_defs runs_def split: sum.splits option.splits)

lemma runs_extract_tar: "runs (fst (extract_tar e t f)) = []"
  by (simp add: extract_tar_def io_defs runs_def Let_def split: sum.splits option.splits)

lemma runs_get_prefix: "runs (fst (get_prefix e p ver)) = []"
  by (simp add: get_prefix_eq runs_def Let_def)

lemma download_urlopen_raises:
  assumes "urlopen e url = Inl err"
  shows "download e url dest =
           ([Print (Fore_GREEN @ ''Downloading: ''), Print (url @ '' into '' @ dest @ [NL]),
             Urlopen url], Inl err)"
  using assms by (simp add: download_def io_defs)

lemma bind_io_Inr:
  assumes "snd m = Inr x"
  shows "bind_io m f = (fst m @ fst (f x), snd (f x))"
  using assms by (cases m) (simp add: bind_io_def split: prod.splits)

lemma bind_io_Inl:
  assumes "snd m = Inl err"
  shows "bind_io m f = (fst m, Inl err)"
  using assms by (cases m) (simp add: bind_io_def)

lemma then_io_Inr:
  assumes "snd m = Inr x"
  shows "then_io m k = (fst m @ fst k, snd k)"
  using assms by (simp add: then_io_def bind_io_Inr)

lemma then_io_Inl:
  assumes "snd m = Inl err"
  shows "then_io m k = (fst m, Inl err)"
  using assms by (simp add: then_io_def bind_io_Inl)

lemma process_reaches_build:
  assumes "snd (metainfo e a) = Inr (ver, t, url, f)"
    and "snd (download e url f) = Inr ()"
    and "snd (extract_tar e t f) = Inr d"
    and "snd (get_prefix e (path a) ver) = Inr P"
  shows "process e a =
           (fst (metainfo e a) @ fst (download e url f) @ fst (extract_tar e t f) @
            fst (get_prefix e (path a) ver) @ fst (then_io (bootstrap e P d) (b2 e P d)),
            snd (then_io (bootstrap e P d) (b2 e P d)))"
  using assms by (simp add: process_def bind_io_Inr then_io_Inr)

lemma process_download_raises:
  assumes "snd (metainfo e a) = Inr (ver, t, url, f)"
    and "snd (download e url f) = Inl err"
  shows "process e a = (fst (metainfo e a) @ fst (download e url f), Inl err)"
  using assms by (simp add: process_def bind_io_Inr then_io_Inl)

lemma bootstrap_eq:
  "bootstrap e P d =
     ([Print (Fore_GREEN @ ''Bootstrap command: ''),
       Print (str_join '' '' (bootstrap_cmd (os_name e) P) @ [NL]),
       Subprocess_run (bootstrap_cmd (os_name e) P) True False d],
      (case child e (bootstrap_cmd (os_name e) P) True d of
         Launch_failed m \<Rightarrow> Inl (OSError m)
       | Exited rc \<Rightarrow> Inr ()))"
  by (simp add: bootstrap_def subprocess_run_def io_defs Let_def split: proc_outcome.splits)

lemma b2_eq:
  "b2 e P d =
     ([Print (Fore_GREEN @ ''Build command: ''),
       Print (str_join '' '' (b2_cmd (os_name e) P) @ [NL]),
       Subprocess_run (b2_cmd (os_name e) P) (os_name e = Nt) (os_name e \<noteq> Nt) d],
      (case child e (b2_cmd (os_name e) P) (os_name e = Nt) d of
         Launch_failed m \<Rightarrow> Inl (OSError m)
       | Exited rc \<Rightarrow>
           if os_name e \<noteq> Nt \<and> rc \<noteq> 0
           then Inl (CalledProcessError rc (b2_cmd (os_name e) P))
           else Inr ()))"
  by (simp add: b2_def subprocess_run_def io_defs Let_def split: proc_outcome.splits)

lemma build_stages_exited:
  assumes "child e (bootstrap_cmd (os_name e) P) True d = Exited rc1"
    and "child e (b2_cmd (os_name e) P) (os_name e = Nt) d = Exited rc2"
  shows "runs (fst (then_io (bootstrap e P d) (b2 e P d))) =
           [Subprocess_run (bootstrap_cmd (os_name e) P) True False d,
            Subprocess_run (b2_cmd (os_name e) P) (os_name e = Nt) (os_name e \<noteq> Nt) d]"
    and "snd (then_io (bootstrap e P d) (b2 e P d)) =
           (if os_name e \<noteq> Nt \<and> rc2 \<noteq> 0
            then Inl (CalledProcessError rc2 (b2_cmd (os_name e) P)) else Inr ())"
proof -
  have b: "snd (bootstrap e P d) = Inr ()"
    using assms(1) by (simp add: bootstrap_eq)
  show "runs (fst (then_io (bootstrap e P d) (b2 e P d))) =
           [Subprocess_run (bootstrap_cmd (os_name e) P) True False d,
            Subprocess_run (b2_cmd (os_name e) P) (os_name e = Nt) (os_name e \<noteq> Nt) d]"
    by (simp add: then_io_Inr [OF b] runs_append) (simp add: bootstrap_eq b2_eq runs_def)
  show "snd (then_io (bootstrap e P d) (b2 e P d)) =
           (if os_name e \<noteq> Nt \<and> rc2 \<noteq> 0
            then Inl (CalledProcessError rc2 (b2_cmd (os_name e) P)) else Inr ())"
    using assms(2) by (simp add: then_io_Inr [OF b] b2_eq)
qed




lemma runs_process_reaches_build:
  assumes "snd (metainfo e a) = Inr (ver, t, url, f)"
    and "snd (download e url f) = Inr ()"
    and "snd (extract_tar e t f) = Inr d"
    and "snd (get_prefix e (path a) ver) = Inr P"
  shows "runs (fst (process e a)) = runs (fst (then_io (bootstrap e P d) (b2 e P d)))"
    and "snd (process e a) = snd (then_io (bootstrap e P d) (b2 e P d))"
  using process_reaches_build [OF assms]
  by (simp_all add: runs_append runs_metainfo runs_download runs_extract_tar runs_get_prefix)

lemma quiet_env_ok:
  "snd (metainfo (quiet_env os t) a) =
     Inr (version a @ ''.0'', t,
          ''https://boostorg.jfrog.io/artifactory/main/release/'' @ (version a @ ''.0'') @
            ''/source/'' @ archive_name (version a @ ''.0''),
          os_path_join os t (archive_name (version a @ ''.0'')))"
  "snd (download (quiet_env os t) url f) = Inr ()"
  "snd (extract_tar (quiet_env os t) t' f) = Inr (os_path_join os t' (split_first f))"
  by (simp_all add: metainfo_eq download_def extract_tar_def io_defs quiet_env_def Let_def)

lemmas script_defs = metainfo_eq get_prefix_eq bootstrap_eq b2_eq download_def extract_tar_def
  process_def script_main_def io_defs Let_def archive_name_def str_replace_def path_defs
  default_path_def bootstrap_cmd_def b2_cmd_def

lemma split_first_at_dot:
  assumes "CHR ''.'' \<notin> set a"
  shows "split_first (a @ CHR ''.'' # b) = a"
  using assms by (induction a) (auto simp: split_first_def split: list.splits)

lemma extract_directory_dotless:
  assumes "startswith T ''/''" and "CHR ''.'' \<notin> set T" and "CHR ''.'' \<notin> set base"
    and "\<not> startswith base ''/''"
    and "os_name e = Posix" and "tarfile_open e (os_path_join Posix T (base @ ''.tar.gz'')) = None"
    and "tar_extractall e (os_path_join Posix T (base @ ''.tar.gz'')) T = None"
  shows "snd (extract_tar e T (os_path_join Posix T (base @ ''.tar.gz'')))
           = Inr (os_path_join Posix T base)"
proof -
  have T: "T \<noteq> []"
    using assms(1) by (auto simp: startswith_def)
  have b: "startswith (base @ ''.tar.gz'') ''/'' = False"
    using assms(4) by (cases base) (simp_all add: startswith_def)
  have b': "startswith base ''/'' = False"
    using assms(4) by simp
  have j: "posix_join T (base @ ''.tar.gz'') = posix_join T base @ CHR ''.'' # ''tar.gz''"
    by (simp add: posix_join_def b b')
  have d: "CHR ''.'' \<notin> set (posix_join T base)"
    using assms(2,3) by (simp add: posix_join_def)
  have s: "startswith (posix_join T base) ''/''"
    using assms(1) T by (cases T) (simp_all add: posix_join_def startswith_def)
  have "split_first (posix_join T (base @ ''.tar.gz'')) = posix_join T base"
    unfolding j using d by (rule split_first_at_dot)
  moreover have "posix_join T (posix_join T base) = posix_join T base"
    using s by (simp add: posix_join_def [of T "posix_join T base"])
  ultimately show ?thesis
    using assms(5,6,7) by (simp add: extract_tar_def io_defs Let_def)
qed

subsection \<open>Normalised paths have no doubled separator\<close>

lemma embeds_pair_Nil: "\<not> embeds [] [c, c]"
  by simp

lemma embeds_pair_Cons:
  "embeds (x # xs) [c, c] \<longleftrightarrow> (x = c \<and> xs \<noteq> [] \<and> hd xs = c) \<or> embeds xs [c, c]"
  by (cases xs) (auto simp: startswith_def)

lemma embeds_pair_append:
  "embeds (a @ b) [c, c] \<longleftrightarrow>
     embeds a [c, c] \<or> embeds b [c, c] \<or> (a \<noteq> [] \<and> last a = c \<and> b \<noteq> [] \<and> hd b = c)"
proof (induction a)
  case Nil
  show ?case by simp
next
  case (Cons x a)
  show ?case
    unfolding append_Cons embeds_pair_Cons Cons.IH
    by (cases a) auto
qed

lemma sep_free_no_pair:
  assumes "c \<notin> set s"
  shows "\<not> embeds s [c, c]"
  using assms
  by (induction s) (auto simp: embeds_pair_Cons embeds_pair_Nil simp del: embeds.simps)

lemma str_join_collapsed:
  assumes "\<forall>s \<in> set comps. s \<noteq> [] \<and> c \<notin> set s"
  shows "\<not> embeds (str_join [c] comps) [c, c]
         \<and> (str_join [c] comps = [] \<or> hd (str_join [c] comps) \<noteq> c)"
  using assms
proof (induction comps)
  case Nil
  show ?case by simp
next
  case (Cons x comps)
  then have x: "x \<noteq> []" "c \<notin> set x"
    by simp_all
  have lx: "last x \<noteq> c"
    using x by (metis last_in_set)
  have hx: "hd x \<noteq> c"
    using x by (metis hd_in_set)
  show ?case
  proof (cases comps)
    case Nil
    then show ?thesis
      using x hx by (simp add: sep_free_no_pair del: embeds.simps)
  next
    case (Cons y ys)
    have r: "\<not> embeds (str_join [c] (y # ys)) [c, c]"
      "str_join [c] (y # ys) = [] \<or> hd (str_join [c] (y # ys)) \<noteq> c"
      using Cons.IH Cons.prems Cons by auto
    show ?thesis
      using x r lx hx Cons
      by (simp add: embeds_pair_append embeds_pair_Cons sep_free_no_pair del: embeds.simps)
  qed
qed

lemma str_split_components: "\<forall>s \<in> set (str_split sep p). sep \<notin> set s"
  by (induction p) (auto split: list.splits)

lemma posix_norm_step_invariant:
  assumes "\<forall>s \<in> set acc. s \<noteq> [] \<and> CHR ''/'' \<notin> set s" and "CHR ''/'' \<notin> set c"
  shows "\<forall>s \<in> set (posix_norm_step n acc c). s \<noteq> [] \<and> CHR ''/'' \<notin> set s"
  using assms by (auto simp: posix_norm_step_def dest: in_set_butlastD)

lemma posix_norm_fold_invariant:
  assumes "\<forall>s \<in> set acc. s \<noteq> [] \<and> CHR ''/'' \<notin> set s"
    and "\<forall>s \<in> set comps. CHR ''/'' \<notin> set s"
  shows "\<forall>s \<in> set (foldl (posix_norm_step n) acc comps). s \<noteq> [] \<and> CHR ''/'' \<notin> set s"
  using assms
proof (induction comps arbitrary: acc)
  case Nil
  then show ?case by simp
next
  case (Cons c comps)
  have "\<forall>s \<in> set (posix_norm_step n acc c). s \<noteq> [] \<and> CHR ''/'' \<notin> set s"
    using Cons.prems by (intro posix_norm_step_invariant) simp_all
  then show ?case
    using Cons.IH [of "posix_norm_step n acc c"] Cons.prems(2) by simp
qed

lemma posix_normpath_collapsed: "\<not> embeds (tl (posix_normpath s)) ''//''"
proof -
  define n where "n = (if startswith s ''/'' then
                 (if startswith s ''//'' \<and> \<not> startswith s ''///'' then 2 else 1)
               else (0::nat))"
  define j where "j = str_join ''/'' (foldl (posix_norm_step n) [] (str_split (CHR ''/'') s))"
  have inv: "\<forall>c \<in> set (foldl (posix_norm_step n) [] (str_split (CHR ''/'') s)).
               c \<noteq> [] \<and> CHR ''/'' \<notin> set c"
    by (intro posix_norm_fold_invariant) (simp_all add: str_split_components)
  have j: "\<not> embeds j ''//''" "j = [] \<or> hd j \<noteq> CHR ''/''"
    using str_join_collapsed [OF inv] by (simp_all add: j_def)
  have r: "posix_normpath s =
             (if s = [] then ''.''
              else if (if n \<noteq> 0 then replicate n (CHR ''/'') @ j else j) = [] then ''.''
              else (if n \<noteq> 0 then replicate n (CHR ''/'') @ j else j))"
    by (simp add: posix_normpath_def Let_def n_def j_def)
  have "n = 0 \<or> n = 1 \<or> n = 2"
    by (simp add: n_def)
  then consider "n = 0" | "n = 1" | "n = 2"
    by blast
  then show ?thesis
  proof cases
    case 1
    with j show ?thesis
      by (cases j) (simp_all add: r embeds_pair_Cons embeds_pair_Nil del: embeds.simps)
  next
    case 2
    with j show ?thesis
      by (simp add: r embeds_pair_Cons embeds_pair_Nil del: embeds.simps)
  next
    case 3
    with j show ?thesis
      by (cases j) (simp_all add: r numeral_2_eq_2 embeds_pair_Cons embeds_pair_Nil del: embeds.simps)
  qed
qed

lemma nt_norm_loop_invariant:
  assumes "\<forall>k<i. comps ! k \<noteq> []" and "i \<le> length comps" and "\<forall>s \<in> set comps. BSL \<notin> set s"
  shows "\<forall>s \<in> set (nt_norm_loop prefix i comps). s \<noteq> [] \<and> BSL \<notin> set s"
  using assms
proof (induction prefix i comps rule: nt_norm_loop.induct)
  case (1 prefix i comps)
  show ?case
  proof (cases "i < length comps")
    case False
    with "1.prems" have "i = length comps" by simp
    with "1.prems" False show ?thesis
      by (subst nt_norm_loop.simps) (auto simp: in_set_conv_nth)
  next
    case True
    have del: "s \<in> set (take m comps) \<or> s \<in> set (drop n comps) \<Longrightarrow> BSL \<notin> set s" for m n s
      using "1.prems"(3) by (auto dest: in_set_takeD in_set_dropD)
    consider (drop) "comps ! i = [] \<or> comps ! i = ''.''"
      | (up) "\<not> (comps ! i = [] \<or> comps ! i = ''.'')" "comps ! i = ''..''"
             "0 < i \<and> comps ! (i - 1) \<noteq> ''..''"
      | (root) "\<not> (comps ! i = [] \<or> comps ! i = ''.'')" "comps ! i = ''..''"
             "\<not> (0 < i \<and> comps ! (i - 1) \<noteq> ''..'')" "i = 0 \<and> endswith prefix BSL"
      | (keep) "\<not> (comps ! i = [] \<or> comps ! i = ''.'')" "comps ! i = ''..''"
             "\<not> (0 < i \<and> comps ! (i - 1) \<noteq> ''..'')" "\<not> (i = 0 \<and> endswith prefix BSL)"
      | (plain) "\<not> (comps ! i = [] \<or> comps ! i = ''.'')" "comps ! i \<noteq> ''..''"
      by blast
    then show ?thesis
    proof cases
      case drop
      have "\<forall>s \<in> set (nt_norm_loop prefix i (take i comps @ drop (Suc i) comps)). s \<noteq> [] \<and> BSL \<notin> set s"
        using True drop "1.prems"(1) del
        by (intro "1.IH"(1)) (auto simp: nth_append)
      with True drop show ?thesis
        by (subst nt_norm_loop.simps) simp
    next
      case up
      have "\<forall>s \<in> set (nt_norm_loop prefix (i - 1) (take (i - 1) comps @ drop (Suc i) comps)).
              s \<noteq> [] \<and> BSL \<notin> set s"
        using True up "1.prems"(1) del
        by (intro "1.IH"(2)) (auto simp: nth_append)
      with True up show ?thesis
        by (subst nt_norm_loop.simps) simp
    next
      case root
      have "\<forall>s \<in> set (nt_norm_loop prefix i (take i comps @ drop (Suc i) comps)). s \<noteq> [] \<and> BSL \<notin> set s"
        using True root "1.prems"(1) del
        by (intro "1.IH"(3)) (auto simp: nth_append)
      with True root show ?thesis
        by (subst nt_norm_loop.simps) simp
    next
      case keep
      have "\<forall>s \<in> set (nt_norm_loop prefix (Suc i) comps). s \<noteq> [] \<and> BSL \<notin> set s"
        using True keep "1.prems"
        by (intro "1.IH"(4)) (auto simp: less_Suc_eq)
      with True keep show ?thesis
        by (subst nt_norm_loop.simps) auto
    next
      case plain
      have "\<forall>s \<in> set (nt_norm_loop prefix (Suc i) comps). s \<noteq> [] \<and> BSL \<notin> set s"
        using True plain "1.prems"
        by (intro "1.IH"(5)) (auto simp: less_Suc_eq)
      with True plain show ?thesis
        by (subst nt_norm_loop.simps) auto
    qed
  qed
qed

lemma nt_normpath_collapsed:
  "\<not> embeds (drop (length (fst (nt_splitdrive (str_replace (CHR ''/'') BSL s)))) (nt_normpath s))
       [BSL, BSL]"
proof -
  define prefix0 where "prefix0 = fst (nt_splitdrive (str_replace (CHR ''/'') BSL s))"
  define path2 where "path2 = snd (nt_splitdrive (str_replace (CHR ''/'') BSL s))"
  define prefix where "prefix = (if startswith path2 [BSL] then prefix0 @ [BSL] else prefix0)"
  define path where "path = (if startswith path2 [BSL] then dropWhile (\<lambda>c. c = BSL) path2 else path2)"
  define comps where "comps = nt_norm_loop prefix 0 (str_split BSL path)"
  define comps' where "comps' = (if prefix = [] \<and> comps = [] then [''.''] else comps)"
  have r: "nt_normpath s = prefix @ str_join [BSL] comps'"
    by (cases "nt_splitdrive (str_replace (CHR ''/'') BSL s)")
      (auto simp: nt_normpath_def Let_def prefix0_def path2_def prefix_def path_def
        comps_def comps'_def)
  have "\<forall>c \<in> set comps. c \<noteq> [] \<and> BSL \<notin> set c"
    unfolding comps_def by (intro nt_norm_loop_invariant) (simp_all add: str_split_components)
  then have "\<forall>c \<in> set comps'. c \<noteq> [] \<and> BSL \<notin> set c"
    by (simp add: comps'_def)
  then have j: "\<not> embeds (str_join [BSL] comps') [BSL, BSL]"
    "str_join [BSL] comps' = [] \<or> hd (str_join [BSL] comps') \<noteq> BSL"
    using str_join_collapsed [of comps' BSL] by simp_all
  have "drop (length prefix0) (nt_normpath s) =
          (if startswith path2 [BSL] then BSL # str_join [BSL] comps' else str_join [BSL] comps')"
    by (simp add: r prefix_def)
  with j show ?thesis
    unfolding prefix0_def [symmetric]
    by (cases "str_join [BSL] comps'") (simp_all add: embeds_pair_Cons embeds_pair_Nil del: embeds.simps)
qed

lemma build_stages_runs:
  assumes "child e (bootstrap_cmd (os_name e) P) True d = Exited rc1"
  shows "runs (fst (then_io (bootstrap e P d) (b2 e P d))) =
           [Subprocess_run (bootstrap_cmd (os_name e) P) True False d,
            Subprocess_run (b2_cmd (os_name e) P) (os_name e = Nt) (os_name e \<noteq> Nt) d]"
proof -
  have b: "snd (bootstrap e P d) = Inr ()"
    using assms by (simp add: bootstrap_eq)
  show ?thesis
    by (simp add: then_io_Inr [OF b] runs_append) (simp add: bootstrap_eq b2_eq runs_def)
qed

lemma download_read_raises:
  assumes "urlopen e url = Inr (Inl err)" and "open_wb e dest = None"
  shows "download e url dest =
           ([Print (Fore_GREEN @ ''Downloading: ''), Print (url @ '' into '' @ dest @ [NL]),
             Urlopen url, Open_wb dest, Response_read url], Inl err)"
  using assms by (simp add: download_def io_defs)

lemma download_trace_shape:
  "\<exists>rest. fst (download e url dest) =
            [Print (Fore_GREEN @ ''Downloading: ''), Print (url @ '' into '' @ dest @ [NL]),
             Urlopen url] @ rest
          \<and> (\<forall>ev \<in> set rest. \<exists>data. ev = Open_wb dest \<or> ev = Response_read url
                                      \<or> ev = File_write dest data)"
  by (auto simp: download_def io_defs split: sum.splits option.splits)

lemma download_no_later_stage: "\<forall>ev \<in> set (fst (download e url dest)). \<not> after_fetch ev"
  by (simp add: download_def io_defs split: sum.splits option.splits)

lemma metainfo_trace:
  assumes "snd (metainfo e a) = Inr (ver, t, url, f)"
  shows "fst (metainfo e a) = [Print (Fore_GREEN @ ''Temp directory: ''), Print (t @ [NL])]"
  using assms by (simp add: metainfo_eq split: sum.splits)

subsection \<open>Metadata resolution\<close>

text \<open>
  C1. Whatever the version string \<open>V\<close>, \<^verbatim>\<open>metainfo\<close> returns (in every world that
  has a temp directory, and raises what \<^verbatim>\<open>tempfile.gettempdir()\<close> raises in the others)
  the resolved version \<open>V.0\<close>, the temp directory, the URL made of the fixed host,
  \<^verbatim>\<open>/release/\<close>, the resolved version with its dots, \<^verbatim>\<open>/source/\<close> and the archive
  name, and the archive name joined to the temp directory; the archive name is
  \<^verbatim>\<open>boost_\<close>, the resolved version with every dot turned into an underscore, and
  \<^verbatim>\<open>.tar.gz\<close>. For version 1.76 the URL ends in
  \<^verbatim>\<open>/release/1.76.0/source/boost_1_76_0.tar.gz\<close>.
\<close>

theorem metainfo_archive_and_url:
  "snd (metainfo e \<lparr>version = V, path = p\<rparr>) =
     (case gettempdir e of
        Inl err \<Rightarrow> Inl err
      | Inr temp_dir \<Rightarrow>
          Inr (V @ ''.0'', temp_dir,
               ''https://boostorg.jfrog.io/artifactory/main/release/'' @ (V @ ''.0'') @ ''/source/'' @
                 (''boost_'' @ str_replace (CHR ''.'') (CHR ''_'') (V @ ''.0'') @ ''.tar.gz''),
               os_path_join (os_name e) temp_dir
                 (''boost_'' @ str_replace (CHR ''.'') (CHR ''_'') (V @ ''.0'') @ ''.tar.gz'')))
   \<and> CHR ''.'' \<notin> set (str_replace (CHR ''.'') (CHR ''_'') (V @ ''.0''))
   \<and> snd (metainfo e \<lparr>version = ''1.76'', path = p\<rparr>) =
     (case gettempdir e of
        Inl err \<Rightarrow> Inl err
      | Inr temp_dir \<Rightarrow>
          Inr (''1.76.0'', temp_dir,
               ''https://boostorg.jfrog.io/artifactory/main/release/1.76.0/source/boost_1_76_0.tar.gz'',
               os_path_join (os_name e) temp_dir ''boost_1_76_0.tar.gz''))"
  by (simp add: metainfo_eq archive_name_def str_replace_no_old split: sum.splits)
    (simp add: str_replace_def)

theorem metainfo_archive_and_url_witness:
  "snd (metainfo (quiet_env Posix ''/tmp'') \<lparr>version = ''1.80'', path = None\<rparr>) =
     Inr (''1.80.0'', ''/tmp'',
          ''https://boostorg.jfrog.io/artifactory/main/release/1.80.0/source/boost_1_80_0.tar.gz'',
          ''/tmp/boost_1_80_0.tar.gz'')"
  using metainfo_archive_and_url [of "quiet_env Posix ''/tmp''" "''1.80''" None]
  by (simp add: quiet_env_def str_replace_def posix_join_def startswith_def endswith_def)




subsection \<open>The prefix argument\<close>

text \<open>
  C3, as it is written, speaks of every version string. A version with a doubled
  separator is normalised away: the prefix no longer holds the resolved version.
\<close>

theorem default_prefix_counterexample:
  "snd (get_prefix (quiet_env Posix ''/tmp'') None (''1//76'' @ ''.0''))
     = Inr ''--prefix=/usr/local/boost_1/76.0''
   \<and> \<not> embeds ''--prefix=/usr/local/boost_1/76.0'' (''1//76'' @ ''.0'')"
  by (simp add: get_prefix_eq quiet_env_def default_path_def path_defs Let_def)

text \<open>
  C3, amended. For a version string \<open>V\<close> without a path separator (\<^verbatim>\<open>/\<close>, and on
  Windows the backslash too) and no explicit path, the prefix argument is
  \<^verbatim>\<open>--prefix=\<close> followed by the platform's default directory and the resolved version
  \<open>V.0\<close>, so it embeds the resolved version; for version 1.76 it is
  \<^verbatim>\<open>--prefix=/usr/local/boost_1.76.0\<close> off Windows and
  \<^verbatim>\<open>--prefix=C:\boost\boost_1.76.0\<close> on Windows.
\<close>

theorem default_prefix_embeds_version:
  assumes "CHR ''/'' \<notin> set V" and "os_name e = Nt \<longrightarrow> BSL \<notin> set V"
  shows "snd (get_prefix e None (V @ ''.0'')) =
           Inr (case os_name e of
                  Nt \<Rightarrow> ''--prefix=C:'' @ [BSL] @ ''boost'' @ [BSL] @ ''boost_'' @ (V @ ''.0'')
                | Posix \<Rightarrow> ''--prefix=/usr/local/boost_'' @ (V @ ''.0''))
         \<and> (\<forall>r. snd (get_prefix e None (V @ ''.0'')) = Inr r \<longrightarrow> embeds r (V @ ''.0''))
         \<and> (os_name e = Posix \<longrightarrow>
              snd (get_prefix e None (''1.76'' @ ''.0'')) = Inr ''--prefix=/usr/local/boost_1.76.0'')
         \<and> (os_name e = Nt \<longrightarrow>
              snd (get_prefix e None (''1.76'' @ ''.0'')) =
                Inr (''--prefix=C:'' @ [BSL] @ ''boost'' @ [BSL] @ ''boost_1.76.0''))"
proof (cases "os_name e")
  case Nt
  have n: "nt_normpath (''C:'' @ [BSL] @ ''boost'' @ [BSL] @ ''boost_'' @ (V @ ''.0''))
             = ''C:'' @ [BSL] @ ''boost'' @ [BSL] @ ''boost_'' @ (V @ ''.0'')"
    using assms Nt by (intro nt_normpath_default) simp_all
  have n76: "nt_normpath (''C:'' @ [BSL] @ ''boost'' @ [BSL] @ ''boost_'' @ ''1.76.0'')
             = ''C:'' @ [BSL] @ ''boost'' @ [BSL] @ ''boost_'' @ ''1.76.0''"
    by (intro nt_normpath_default) simp_all
  have emb: "embeds ((''--prefix=C:'' @ [BSL] @ ''boost'' @ [BSL] @ ''boost_'') @ (V @ ''.0'') @ []) (V @ ''.0'')"
    by (rule embeds_append)
  show ?thesis
    using Nt n n76 emb by (simp add: get_prefix_eq default_path_def)
next
  case Posix
  have n: "posix_normpath (''/usr/local/boost_'' @ (V @ ''.0'')) = ''/usr/local/boost_'' @ (V @ ''.0'')"
    using assms by (intro posix_normpath_default) simp
  have n76: "posix_normpath (''/usr/local/boost_'' @ ''1.76.0'') = ''/usr/local/boost_'' @ ''1.76.0''"
    by (intro posix_normpath_default) simp
  have emb: "embeds (''--prefix=/usr/local/boost_'' @ (V @ ''.0'') @ []) (V @ ''.0'')"
    by (rule embeds_append)
  show ?thesis
    using Posix n n76 emb by (simp add: get_prefix_eq default_path_def)
qed

theorem default_prefix_embeds_version_witness:
  "snd (get_prefix (quiet_env Posix ''/tmp'') None ''1.80.0'') = Inr ''--prefix=/usr/local/boost_1.80.0''
   \<and> snd (get_prefix (quiet_env Nt ''C:/Temp'') None ''1.80.0'')
       = Inr (''--prefix=C:'' @ [BSL] @ ''boost'' @ [BSL] @ ''boost_1.80.0'')"
  using default_prefix_embeds_version [of "''1.80''" "quiet_env Posix ''/tmp''"]
    default_prefix_embeds_version [of "''1.80''" "quiet_env Nt ''C:/Temp''"]
  by (simp add: quiet_env_def)

text \<open>
  C10, as it is written, promises the default prefix embedding the version for the
  empty path. The default is normalised like any other path: with the empty path and
  a version with a doubled separator the prefix no longer holds the version.
\<close>

theorem empty_path_counterexample:
  "snd (get_prefix (quiet_env Posix ''/tmp'') (Some []) ''1//76.0'')
     = Inr ''--prefix=/usr/local/boost_1/76.0''
   \<and> ''--prefix=/usr/local/boost_1/76.0'' \<noteq> ''--prefix=/usr/local/boost_'' @ ''1//76.0''
   \<and> \<not> embeds ''--prefix=/usr/local/boost_1/76.0'' ''1//76.0''"
  by (simp add: get_prefix_eq quiet_env_def default_path_def path_defs Let_def)

text \<open>
  C10, amended. The empty string given as the install path is treated exactly like an
  absent path: the result (trace and value) is the one of an absent path, namely
  \<^verbatim>\<open>--prefix=\<close> followed by the normalised default directory of the platform
  (\<^verbatim>\<open>/usr/local/boost_\<close> and the version off Windows, \<^verbatim>\<open>C:\boost\boost_\<close> and the
  version on Windows), never \<^verbatim>\<open>--prefix=.\<close>, which normalising the empty string itself
  would give. For a version without a path separator (\<^verbatim>\<open>/\<close>, and on Windows the
  backslash too) normalising changes nothing: the prefix is
  \<^verbatim>\<open>--prefix=/usr/local/boost_\<close> followed by the version off Windows and
  \<^verbatim>\<open>--prefix=C:\boost\boost_\<close> followed by the version on Windows.
\<close>

theorem empty_path_takes_default:
  "get_prefix e (Some []) ver = get_prefix e None ver
   \<and> snd (get_prefix e (Some []) ver) =
       Inr (''--prefix='' @
            os_path_normpath (os_name e)
              (case os_name e of
                 Nt \<Rightarrow> ''C:'' @ [BSL] @ ''boost'' @ [BSL] @ ''boost_'' @ ver
               | Posix \<Rightarrow> ''/usr/local/boost_'' @ ver))
   \<and> snd (get_prefix e (Some []) ver) \<noteq> Inr ''--prefix=.''
   \<and> os_path_normpath (os_name e) [] = ''.''
   \<and> (CHR ''/'' \<notin> set ver \<and> (os_name e = Nt \<longrightarrow> BSL \<notin> set ver) \<longrightarrow>
        snd (get_prefix e (Some []) ver) =
          Inr (case os_name e of
                 Nt \<Rightarrow> ''--prefix=C:'' @ [BSL] @ ''boost'' @ [BSL] @ ''boost_'' @ ver
               | Posix \<Rightarrow> ''--prefix=/usr/local/boost_'' @ ver))"
proof -
  have 1: "get_prefix e (Some []) ver = get_prefix e None ver"
    by (simp add: get_prefix_eq)
  have 2: "snd (get_prefix e (Some []) ver) =
       Inr (''--prefix='' @
            os_path_normpath (os_name e)
              (case os_name e of
                 Nt \<Rightarrow> ''C:'' @ [BSL] @ ''boost'' @ [BSL] @ ''boost_'' @ ver
               | Posix \<Rightarrow> ''/usr/local/boost_'' @ ver))"
    by (cases "os_name e") (simp_all add: get_prefix_eq default_path_def)
  have 3: "snd (get_prefix e (Some []) ver) \<noteq> Inr ''--prefix=.''"
    using posix_normpath_default_not_dot [of ver] nt_normpath_default_not_dot [of ver]
    by (cases "os_name e") (simp_all add: get_prefix_eq default_path_def)
  have 4: "os_path_normpath (os_name e) [] = ''.''"
    by (cases "os_name e")
      (simp_all add: posix_normpath_def nt_normpath_def nt_splitdrive_def str_replace_def
        startswith_def Let_def nt_norm_loop.simps [of _ 0])
  have 5: "snd (get_prefix e (Some []) ver) =
          Inr (case os_name e of
                 Nt \<Rightarrow> ''--prefix=C:'' @ [BSL] @ ''boost'' @ [BSL] @ ''boost_'' @ ver
               | Posix \<Rightarrow> ''--prefix=/usr/local/boost_'' @ ver)"
    if "CHR ''/'' \<notin> set ver \<and> (os_name e = Nt \<longrightarrow> BSL \<notin> set ver)"
  proof (cases "os_name e")
    case Nt
    with that have "nt_normpath (''C:'' @ [BSL] @ ''boost'' @ [BSL] @ ''boost_'' @ ver)
             = ''C:'' @ [BSL] @ ''boost'' @ [BSL] @ ''boost_'' @ ver"
      by (intro nt_normpath_default) simp_all
    with Nt show ?thesis
      by (simp add: get_prefix_eq default_path_def)
  next
    case Posix
    from that have "posix_normpath (''/usr/local/boost_'' @ ver) = ''/usr/local/boost_'' @ ver"
      by (intro posix_normpath_default) simp
    with Posix show ?thesis
      by (simp add: get_prefix_eq default_path_def)
  qed
  from 1 2 3 4 5 show ?thesis
    by blast
qed

theorem empty_path_takes_default_witness:
  "snd (get_prefix (quiet_env Posix ''/tmp'') (Some []) ''1.76.0'')
     = Inr ''--prefix=/usr/local/boost_1.76.0''
   \<and> snd (get_prefix (quiet_env Nt (''C:'' @ [BSL] @ ''Temp'')) (Some []) ''1.76.0'')
     = Inr (''--prefix=C:'' @ [BSL] @ ''boost'' @ [BSL] @ ''boost_1.76.0'')"
  using empty_path_takes_default [of "quiet_env Posix ''/tmp''" "''1.76.0''",
      THEN conjunct2, THEN conjunct2, THEN conjunct2, THEN conjunct2]
    empty_path_takes_default [of "quiet_env Nt (''C:'' @ [BSL] @ ''Temp'')" "''1.76.0''",
      THEN conjunct2, THEN conjunct2, THEN conjunct2, THEN conjunct2]
  by (simp add: quiet_env_def)

subsection \<open>Failures\<close>

text \<open>
  C5. When the fetch stage raises, be it in opening the URL, in reading the response
  or in writing the file, the run is over after the error has been printed: the trace
  of the script is the two lines of the metadata stage, the trace of the fetch stage
  and the printed error. The fetch stage's trace is its two lines and the attempt to
  open the URL, followed by nothing but opening the destination, reading the response
  and writing. No archive is opened or unpacked and no tool is started. For the two
  places a connection error comes from, the whole trace is given: the URL cannot be
  opened, or the response cannot be read.
\<close>

theorem fetch_failure_stops_pipeline:
  assumes "snd (metainfo e a) = Inr (ver, t, url, f)"
    and "snd (download e url f) = Inl err"
  shows "script_main e a =
           [Print (Fore_GREEN @ ''Temp directory: ''), Print (t @ [NL])] @
           fst (download e url f) @ [Print ''Error: '', Print_exc err]
     \<and> (\<forall>ev \<in> set (script_main e a). \<not> after_fetch ev)
     \<and> (\<exists>rest. fst (download e url f) =
            [Print (Fore_GREEN @ ''Downloading: ''), Print (url @ '' into '' @ f @ [NL]),
             Urlopen url] @ rest
          \<and> (\<forall>ev \<in> set rest. \<exists>data. ev = Open_wb f \<or> ev = Response_read url
                                      \<or> ev = File_write f data))
     \<and> (urlopen e url = Inl err \<longrightarrow>
          script_main e a =
            [Print (Fore_GREEN @ ''Temp directory: ''), Print (t @ [NL]),
             Print (Fore_GREEN @ ''Downloading: ''), Print (url @ '' into '' @ f @ [NL]),
             Urlopen url,
             Print ''Error: '', Print_exc err])
     \<and> (urlopen e url = Inr (Inl err) \<and> open_wb e f = None \<longrightarrow>
          script_main e a =
            [Print (Fore_GREEN @ ''Temp directory: ''), Print (t @ [NL]),
             Print (Fore_GREEN @ ''Downloading: ''), Print (url @ '' into '' @ f @ [NL]),
             Urlopen url, Open_wb f, Response_read url,
             Print ''Error: '', Print_exc err])"
proof -
  have p: "process e a = (fst (metainfo e a) @ fst (download e url f), Inl err)"
    using assms by (rule process_download_raises)
  have m: "fst (metainfo e a) = [Print (Fore_GREEN @ ''Temp directory: ''), Print (t @ [NL])]"
    using assms(1) by (rule metainfo_trace)
  have 1: "script_main e a =
           [Print (Fore_GREEN @ ''Temp directory: ''), Print (t @ [NL])] @
           fst (download e url f) @ [Print ''Error: '', Print_exc err]"
    by (simp add: script_main_def p m)
  have 2: "\<forall>ev \<in> set (script_main e a). \<not> after_fetch ev"
    using download_no_later_stage [of e url f] by (auto simp: 1)
  have 3: "script_main e a =
            [Print (Fore_GREEN @ ''Temp directory: ''), Print (t @ [NL]),
             Print (Fore_GREEN @ ''Downloading: ''), Print (url @ '' into '' @ f @ [NL]),
             Urlopen url,
             Print ''Error: '', Print_exc err]"
    if "urlopen e url = Inl err"
    using download_urlopen_raises [OF that, of f] by (simp add: 1)
  have 4: "script_main e a =
            [Print (Fore_GREEN @ ''Temp directory: ''), Print (t @ [NL]),
             Print (Fore_GREEN @ ''Downloading: ''), Print (url @ '' into '' @ f @ [NL]),
             Urlopen url, Open_wb f, Response_read url,
             Print ''Error: '', Print_exc err]"
    if "urlopen e url = Inr (Inl err) \<and> open_wb e f = None"
    using download_read_raises [of e url err f] that by (simp add: 1)
  from 1 2 3 4 download_trace_shape [of e url f] show ?thesis
    by blast
qed

theorem fetch_failure_stops_pipeline_witness:
  "script_main ((quiet_env Posix ''/tmp'')\<lparr>urlopen := \<lambda>u. Inl (URLError ''Connection refused'')\<rparr>)
       \<lparr>version = ''1.76'', path = None\<rparr> =
     [Print (Fore_GREEN @ ''Temp directory: ''), Print (''/tmp'' @ [NL]),
      Print (Fore_GREEN @ ''Downloading: ''),
      Print (''https://boostorg.jfrog.io/artifactory/main/release/1.76.0/source/boost_1_76_0.tar.gz''
               @ '' into '' @ ''/tmp/boost_1_76_0.tar.gz'' @ [NL]),
      Urlopen ''https://boostorg.jfrog.io/artifactory/main/release/1.76.0/source/boost_1_76_0.tar.gz'',
      Print ''Error: '', Print_exc (URLError ''Connection refused'')]
   \<and> script_main ((quiet_env Posix ''/tmp'')
                     \<lparr>urlopen := \<lambda>u. Inr (Inl (OSError ''Connection reset by peer''))\<rparr>)
       \<lparr>version = ''1.76'', path = None\<rparr> =
     [Print (Fore_GREEN @ ''Temp directory: ''), Print (''/tmp'' @ [NL]),
      Print (Fore_GREEN @ ''Downloading: ''),
      Print (''https://boostorg.jfrog.io/artifactory/main/release/1.76.0/source/boost_1_76_0.tar.gz''
               @ '' into '' @ ''/tmp/boost_1_76_0.tar.gz'' @ [NL]),
      Urlopen ''https://boostorg.jfrog.io/artifactory/main/release/1.76.0/source/boost_1_76_0.tar.gz'',
      Open_wb ''/tmp/boost_1_76_0.tar.gz'',
      Response_read ''https://boostorg.jfrog.io/artifactory/main/release/1.76.0/source/boost_1_76_0.tar.gz'',
      Print ''Error: '', Print_exc (OSError ''Connection reset by peer'')]"
  using fetch_failure_stops_pipeline
    [of "(quiet_env Posix ''/tmp'')\<lparr>urlopen := \<lambda>u. Inl (URLError ''Connection refused'')\<rparr>"
        "\<lparr>version = ''1.76'', path = None\<rparr>" "''1.76.0''" "''/tmp''"
        "''https://boostorg.jfrog.io/artifactory/main/release/1.76.0/source/boost_1_76_0.tar.gz''"
        "''/tmp/boost_1_76_0.tar.gz''" "URLError ''Connection refused''"]
    fetch_failure_stops_pipeline
    [of "(quiet_env Posix ''/tmp'')\<lparr>urlopen := \<lambda>u. Inr (Inl (OSError ''Connection reset by peer''))\<rparr>"
        "\<lparr>version = ''1.76'', path = None\<rparr>" "''1.76.0''" "''/tmp''"
        "''https://boostorg.jfrog.io/artifactory/main/release/1.76.0/source/boost_1_76_0.tar.gz''"
        "''/tmp/boost_1_76_0.tar.gz''" "OSError ''Connection reset by peer''"]
  by (simp add: metainfo_eq download_def io_defs quiet_env_def archive_name_def str_replace_def
      path_defs)

text \<open>
  C4. Let the run reach the build with both tools started. Then the bootstrap tool is
  run without \<^verbatim>\<open>check\<close> on both platforms and the build tool is run after it
  whatever the exit status of the bootstrap tool; the build tool is run with
  \<^verbatim>\<open>check\<close> off Windows only. So off Windows a nonzero exit status of the build tool
  raises \<^verbatim>\<open>CalledProcessError\<close>, and on Windows no exit status raises anything.
\<close>

theorem exit_status_checking:
  assumes "snd (metainfo e a) = Inr (ver, t, url, f)"
    and "snd (download e url f) = Inr ()"
    and "snd (extract_tar e t f) = Inr d"
    and "snd (get_prefix e (path a) ver) = Inr P"
    and "child e (bootstrap_cmd (os_name e) P) True d = Exited rc1"
    and "child e (b2_cmd (os_name e) P) (os_name e = Nt) d = Exited rc2"
  shows "runs (fst (process e a)) =
           [Subprocess_run (bootstrap_cmd (os_name e) P) True False d,
            Subprocess_run (b2_cmd (os_name e) P) (os_name e = Nt) (os_name e \<noteq> Nt) d]
         \<and> snd (process e a) =
           (if os_name e \<noteq> Nt \<and> rc2 \<noteq> 0
            then Inl (CalledProcessError rc2 (b2_cmd (os_name e) P)) else Inr ())"
  using runs_process_reaches_build [OF assms(1-4)] build_stages_exited [OF assms(5,6)]
  by simp

theorem exit_status_checking_witness:
  "snd (process ((quiet_env Posix ''/tmp'')\<lparr>child := \<lambda>cmd shell cwd. Exited (if shell then 1 else 2)\<rparr>)
          \<lparr>version = ''1.76'', path = None\<rparr>)
     = Inl (CalledProcessError 2
              [''sudo'', ''./b2'', ''install'', ''--prefix=/usr/local/boost_1.76.0'', ''-j 8''])
   \<and> runs (fst (process ((quiet_env Posix ''/tmp'')\<lparr>child := \<lambda>cmd shell cwd. Exited (if shell then 1 else 2)\<rparr>)
          \<lparr>version = ''1.76'', path = None\<rparr>))
     = [Subprocess_run [''./bootstrap.sh'', ''--prefix=/usr/local/boost_1.76.0''] True False
          ''/tmp/boost_1_76_0'',
        Subprocess_run [''sudo'', ''./b2'', ''install'', ''--prefix=/usr/local/boost_1.76.0'', ''-j 8'']
          False True ''/tmp/boost_1_76_0'']
   \<and> snd (process ((quiet_env Nt (''C:'' @ [BSL] @ ''Temp''))\<lparr>child := \<lambda>cmd shell cwd. Exited 1\<rparr>)
          \<lparr>version = ''1.76'', path = None\<rparr>)
     = Inr ()"
  using exit_status_checking
    [of "(quiet_env Posix ''/tmp'')\<lparr>child := \<lambda>cmd shell cwd. Exited (if shell then 1 else 2)\<rparr>"
        "\<lparr>version = ''1.76'', path = None\<rparr>" "''1.76.0''" "''/tmp''"
        "''https://boostorg.jfrog.io/artifactory/main/release/1.76.0/source/boost_1_76_0.tar.gz''"
        "''/tmp/boost_1_76_0.tar.gz''" "''/tmp/boost_1_76_0''"
        "''--prefix=/usr/local/boost_1.76.0''" 1 2]
    exit_status_checking
    [of "(quiet_env Nt (''C:'' @ [BSL] @ ''Temp''))\<lparr>child := \<lambda>cmd shell cwd. Exited 1\<rparr>"
        "\<lparr>version = ''1.76'', path = None\<rparr>" "''1.76.0''" "''C:'' @ [BSL] @ ''Temp''"
        "''https://boostorg.jfrog.io/artifactory/main/release/1.76.0/source/boost_1_76_0.tar.gz''"
        "''C:'' @ [BSL] @ ''Temp'' @ [BSL] @ ''boost_1_76_0.tar.gz''"
        "''C:'' @ [BSL] @ ''Temp'' @ [BSL] @ ''boost_1_76_0''"
        "''--prefix=C:'' @ [BSL] @ ''boost'' @ [BSL] @ ''boost_1.76.0''" 1 1]
  by (simp add: metainfo_eq get_prefix_eq download_def extract_tar_def io_defs quiet_env_def
      Let_def archive_name_def str_replace_def path_defs default_path_def bootstrap_cmd_def
      b2_cmd_def nt_join_def nt_splitdrive_def is_nt_sep_def nt_normpath_def
      nt_norm_loop.simps [of _ 0] nt_norm_loop.simps [of _ "Suc 0"]
      nt_norm_loop.simps [of _ "Suc (Suc 0)"])

subsection \<open>What the bootstrap tool receives\<close>

text \<open>
  C6. For version 1.76, no explicit path, off Windows, with the temp directory
  \<^verbatim>\<open>/tmp\<close>: the bootstrap stage calls \<^verbatim>\<open>subprocess.run\<close> with the list
  \<^verbatim>\<open>['./bootstrap.sh', '--prefix=/usr/local/boost_1.76.0']\<close>, \<^verbatim>\<open>shell=True\<close> and the
  extraction directory as working directory. With \<^verbatim>\<open>shell=True\<close> the child is
  \<^verbatim>\<open>/bin/sh -c ./bootstrap.sh --prefix=/usr/local/boost_1.76.0\<close>: the command string
  the shell executes is \<^verbatim>\<open>./bootstrap.sh\<close> alone, and the prefix argument is an operand
  of the shell, not an argument of the bootstrap tool.
\<close>

theorem bootstrap_prefix_not_passed:
  "runs (script_main (quiet_env Posix ''/tmp'') \<lparr>version = ''1.76'', path = None\<rparr>) =
     [Subprocess_run [''./bootstrap.sh'', ''--prefix=/usr/local/boost_1.76.0''] True False
        ''/tmp/boost_1_76_0'',
      Subprocess_run [''sudo'', ''./b2'', ''install'', ''--prefix=/usr/local/boost_1.76.0'', ''-j 8'']
        False True ''/tmp/boost_1_76_0'']
   \<and> posix_child_argv True [''./bootstrap.sh'', ''--prefix=/usr/local/boost_1.76.0''] =
       [''/bin/sh'', ''-c'', ''./bootstrap.sh'', ''--prefix=/usr/local/boost_1.76.0'']
   \<and> sh_command_string
         (posix_child_argv True [''./bootstrap.sh'', ''--prefix=/usr/local/boost_1.76.0'']) =
       Some ''./bootstrap.sh''
   \<and> sh_command_string
         (posix_child_argv True [''./bootstrap.sh'', ''--prefix=/usr/local/boost_1.76.0'']) \<noteq>
       Some ''./bootstrap.sh --prefix=/usr/local/boost_1.76.0''"
  by (simp add: script_defs quiet_env_def runs_def posix_child_argv_def sh_command_string_def)

subsection \<open>The extraction directory\<close>

text \<open>
  C2. With the temp directory \<^verbatim>\<open>/tmp/my.dir\<close> the archive is
  \<^verbatim>\<open>/tmp/my.dir/boost_1_76_0.tar.gz\<close>; the extract stage splits this whole path at the
  first dot and returns \<^verbatim>\<open>/tmp/my\<close>, where the temp directory joined with the
  archive's base name is \<^verbatim>\<open>/tmp/my.dir/boost_1_76_0\<close>. Both tools are then started
  in \<^verbatim>\<open>/tmp/my\<close>. (For an absolute temp directory without a dot the two agree:
  \<open>extract_directory_dotless\<close>.)
\<close>

theorem extract_directory_dotted_temp_dir:
  "os_path_join Posix ''/tmp/my.dir'' ''boost_1_76_0.tar.gz'' = ''/tmp/my.dir/boost_1_76_0.tar.gz''
   \<and> snd (extract_tar (quiet_env Posix ''/tmp/my.dir'') ''/tmp/my.dir''
            ''/tmp/my.dir/boost_1_76_0.tar.gz'') = Inr ''/tmp/my''
   \<and> os_path_join Posix ''/tmp/my.dir'' ''boost_1_76_0'' = ''/tmp/my.dir/boost_1_76_0''
   \<and> runs (script_main (quiet_env Posix ''/tmp/my.dir'') \<lparr>version = ''1.76'', path = None\<rparr>) =
     [Subprocess_run [''./bootstrap.sh'', ''--prefix=/usr/local/boost_1.76.0''] True False
        ''/tmp/my'',
      Subprocess_run [''sudo'', ''./b2'', ''install'', ''--prefix=/usr/local/boost_1.76.0'', ''-j 8'']
        False True ''/tmp/my'']"
  by (simp add: script_defs quiet_env_def runs_def)

subsection \<open>What the derived values depend on\<close>

text \<open>
  C8, as it is written, names the version, the path and the platform as the only
  inputs. Two worlds that differ in the temp directory alone give two different
  destination paths.
\<close>

theorem temp_dir_counterexample:
  "os_name (quiet_env Posix ''/tmp'') = os_name (quiet_env Posix ''/var/tmp'')
   \<and> snd (metainfo (quiet_env Posix ''/tmp'') \<lparr>version = ''1.76'', path = None\<rparr>) \<noteq>
     snd (metainfo (quiet_env Posix ''/var/tmp'') \<lparr>version = ''1.76'', path = None\<rparr>)"
  by (simp add: metainfo_eq quiet_env_def path_defs archive_name_def)

text \<open>
  C8, amended. The resolved version and the URL are the same in any two runs that
  return them, and the prefix argument is the same in any two worlds with the same
  platform; the destination path and the extraction directory are the same in any two
  worlds with the same platform and the same answer of \<^verbatim>\<open>tempfile.gettempdir()\<close>.
  Nothing else of the world (the network, the file system, the tools) enters a derived
  value.
\<close>

theorem derived_values_determined:
  "(os_name e1 = os_name e2 \<longrightarrow>
      (\<forall>v1 t1 u1 f1 v2 t2 u2 f2.
          snd (metainfo e1 a) = Inr (v1, t1, u1, f1) \<and> snd (metainfo e2 a) = Inr (v2, t2, u2, f2)
            \<longrightarrow> v1 = v2 \<and> u1 = u2)
      \<and> snd (get_prefix e1 p ver) = snd (get_prefix e2 p ver))
   \<and> (os_name e1 = os_name e2 \<and> gettempdir e1 = gettempdir e2 \<longrightarrow>
      snd (metainfo e1 a) = snd (metainfo e2 a)
      \<and> (\<forall>t f d1 d2. snd (extract_tar e1 t f) = Inr d1 \<and> snd (extract_tar e2 t f) = Inr d2
            \<longrightarrow> d1 = d2))"
proof -
  have x: "d1 = os_path_join (os_name e) t (split_first f)"
    if "snd (extract_tar e t f) = Inr d1" for e t f d1
    using that
    by (simp add: extract_tar_def io_defs Let_def split: option.splits)
  show ?thesis
    by (auto simp: metainfo_eq get_prefix_eq split: option.splits sum.splits dest!: x)
qed

theorem derived_values_determined_witness:
  "snd (metainfo (quiet_env Posix ''/tmp'') \<lparr>version = ''1.76'', path = None\<rparr>) =
   snd (metainfo ((quiet_env Posix ''/tmp'')\<lparr>urlopen := \<lambda>u. Inl (URLError ''no route'')\<rparr>)
          \<lparr>version = ''1.76'', path = None\<rparr>)"
  using derived_values_determined
    [of "quiet_env Posix ''/tmp''"
        "(quiet_env Posix ''/tmp'')\<lparr>urlopen := \<lambda>u. Inl (URLError ''no route'')\<rparr>"
        "\<lparr>version = ''1.76'', path = None\<rparr>" None "''1.76.0''"]
  by (simp add: quiet_env_def)

subsection \<open>An explicit install path\<close>

text \<open>
  C7. For an explicit, non-empty install path the prefix argument is \<^verbatim>\<open>--prefix=\<close>
  followed by \<^verbatim>\<open>os.path.normpath\<close> of that path, and when the run reaches the build
  this one string is an element of the command of the bootstrap stage and of the
  command of the build stage. The normalised path has its separators collapsed: off
  Windows no doubled slash after its first character (POSIX keeps exactly two leading
  slashes), on Windows no doubled backslash after the drive specification.
\<close>

theorem explicit_path_prefix:
  assumes "s \<noteq> []" and "path a = Some s"
    and "snd (metainfo e a) = Inr (ver, t, url, f)"
    and "snd (download e url f) = Inr ()"
    and "snd (extract_tar e t f) = Inr d"
    and "child e (bootstrap_cmd (os_name e) (''--prefix='' @ os_path_normpath (os_name e) s)) True d
           = Exited rc"
  shows "snd (get_prefix e (Some s) ver) = Inr (''--prefix='' @ os_path_normpath (os_name e) s)
     \<and> runs (fst (process e a)) =
         [Subprocess_run (bootstrap_cmd (os_name e) (''--prefix='' @ os_path_normpath (os_name e) s))
            True False d,
          Subprocess_run (b2_cmd (os_name e) (''--prefix='' @ os_path_normpath (os_name e) s))
            (os_name e = Nt) (os_name e \<noteq> Nt) d]
     \<and> ''--prefix='' @ os_path_normpath (os_name e) s
          \<in> set (bootstrap_cmd (os_name e) (''--prefix='' @ os_path_normpath (os_name e) s))
     \<and> ''--prefix='' @ os_path_normpath (os_name e) s
          \<in> set (b2_cmd (os_name e) (''--prefix='' @ os_path_normpath (os_name e) s))
     \<and> (os_name e = Posix \<longrightarrow> \<not> embeds (tl (os_path_normpath Posix s)) ''//'')
     \<and> (os_name e = Nt \<longrightarrow>
          \<not> embeds (drop (length (fst (nt_splitdrive (str_replace (CHR ''/'') BSL s))))
                      (os_path_normpath Nt s)) [BSL, BSL])"
proof -
  let ?P = "''--prefix='' @ os_path_normpath (os_name e) s"
  have g: "snd (get_prefix e (path a) ver) = Inr ?P"
    using assms(1,2) by (simp add: get_prefix_eq)
  have 1: "snd (get_prefix e (Some s) ver) = Inr ?P"
    using g assms(2) by simp
  have 2: "runs (fst (process e a)) =
         [Subprocess_run (bootstrap_cmd (os_name e) ?P) True False d,
          Subprocess_run (b2_cmd (os_name e) ?P) (os_name e = Nt) (os_name e \<noteq> Nt) d]"
    using runs_process_reaches_build(1) [OF assms(3,4,5) g] build_stages_runs [OF assms(6)]
    by simp
  have 3: "?P \<in> set (bootstrap_cmd (os_name e) ?P)" "?P \<in> set (b2_cmd (os_name e) ?P)"
    by (simp_all add: bootstrap_cmd_def b2_cmd_def split: os_kind.splits)
  have 4: "\<not> embeds (tl (os_path_normpath Posix s)) ''//''"
    using posix_normpath_collapsed [of s] by simp
  have 5: "\<not> embeds (drop (length (fst (nt_splitdrive (str_replace (CHR ''/'') BSL s))))
                      (os_path_normpath Nt s)) [BSL, BSL]"
    using nt_normpath_collapsed [of s] by simp
  from 1 2 3 4 5 show ?thesis
    by blast
qed

theorem explicit_path_prefix_witness:
  "snd (get_prefix (quiet_env Posix ''/tmp'') (Some ''/opt//boost/./x/'') ''1.76.0'')
     = Inr ''--prefix=/opt/boost/x''
   \<and> runs (fst (process (quiet_env Posix ''/tmp'')
                  \<lparr>version = ''1.76'', path = Some ''/opt//boost/./x/''\<rparr>)) =
       [Subprocess_run [''./bootstrap.sh'', ''--prefix=/opt/boost/x''] True False ''/tmp/boost_1_76_0'',
        Subprocess_run [''sudo'', ''./b2'', ''install'', ''--prefix=/opt/boost/x'', ''-j 8'']
          False True ''/tmp/boost_1_76_0'']
   \<and> snd (get_prefix (quiet_env Nt (''C:'' @ [BSL] @ ''Temp''))
            (Some (''C:'' @ [BSL] @ ''Boost'' @ [BSL, BSL] @ ''x'')) ''1.76.0'')
     = Inr (''--prefix=C:'' @ [BSL] @ ''Boost'' @ [BSL] @ ''x'')
   \<and> runs (fst (process (quiet_env Nt (''C:'' @ [BSL] @ ''Temp''))
                  \<lparr>version = ''1.76'',
                   path = Some (''C:'' @ [BSL] @ ''Boost'' @ [BSL, BSL] @ ''x'')\<rparr>)) =
       [Subprocess_run [''bootstrap.bat'', ''--prefix=C:'' @ [BSL] @ ''Boost'' @ [BSL] @ ''x'']
          True False (''C:'' @ [BSL] @ ''Temp'' @ [BSL] @ ''boost_1_76_0''),
        Subprocess_run [''b2.exe'', ''install'', ''--prefix=C:'' @ [BSL] @ ''Boost'' @ [BSL] @ ''x'',
                        ''-j 8'']
          True False (''C:'' @ [BSL] @ ''Temp'' @ [BSL] @ ''boost_1_76_0'')]"
  using explicit_path_prefix
    [where s = "''/opt//boost/./x/''" and e = "quiet_env Posix ''/tmp''"
       and a = "\<lparr>version = ''1.76'', path = Some ''/opt//boost/./x/''\<rparr>"
       and ver = "''1.76.0''" and t = "''/tmp''"
       and url = "''https://boostorg.jfrog.io/artifactory/main/release/1.76.0/source/boost_1_76_0.tar.gz''"
       and f = "''/tmp/boost_1_76_0.tar.gz''" and d = "''/tmp/boost_1_76_0''" and rc = 0]
    explicit_path_prefix
    [where s = "''C:'' @ [BSL] @ ''Boost'' @ [BSL, BSL] @ ''x''"
       and e = "quiet_env Nt (''C:'' @ [BSL] @ ''Temp'')"
       and a = "\<lparr>version = ''1.76'', path = Some (''C:'' @ [BSL] @ ''Boost'' @ [BSL, BSL] @ ''x'')\<rparr>"
       and ver = "''1.76.0''" and t = "''C:'' @ [BSL] @ ''Temp''"
       and url = "''https://boostorg.jfrog.io/artifactory/main/release/1.76.0/source/boost_1_76_0.tar.gz''"
       and f = "''C:'' @ [BSL] @ ''Temp'' @ [BSL] @ ''boost_1_76_0.tar.gz''"
       and d = "''C:'' @ [BSL] @ ''Temp'' @ [BSL] @ ''boost_1_76_0''" and rc = 0]
  by (simp add: metainfo_eq get_prefix_eq download_def extract_tar_def io_defs quiet_env_def
      Let_def archive_name_def str_replace_def path_defs bootstrap_cmd_def
      b2_cmd_def nt_join_def nt_splitdrive_def is_nt_sep_def nt_normpath_def
      nt_norm_loop.simps [of _ 0] nt_norm_loop.simps [of _ "Suc 0"]
      nt_norm_loop.simps [of _ "Suc (Suc 0)"])

end
